theory Spec2Isabelle
  imports Main "HOL-Library.Word" "HOL-Library.AList"
begin

section \<open>Data model of \<open>src/index.ts\<close>\<close>

text \<open>
  A \<open>Principal\<close> is only ever compared through its textual form
  (\<open>post.owner.toString() !== ic.caller().toString()\<close>), so it is represented
  by that text. Two principals are equal exactly when their texts are.
\<close>

datatype Principal = Principal (toString: string)

type_synonym nat64 = "64 word"

text \<open>
  \<open>Post\<close> carries the three payload fields and six more, so it is the extension of
  \<open>PostPayload\<close>; likewise \<open>Comment\<close> extends \<open>CommentPayload\<close>. The source's field
  \<open>id\<close> is written \<open>id_post\<close> and \<open>id_comment\<close> (\<open>id\<close> is the identity function of HOL).
  \<open>likes\<close> is a JavaScript \<open>number\<close> that holds an integer; the field is the integer, and
  \<open>number_increment\<close> below is \<open>++\<close> on it, with the rounding of a 64-bit float.
\<close>

record PostPayload =
  title :: string
  body :: string
  image :: string

record Post = PostPayload +
  id_post :: string
  owner :: Principal
  likes :: int
  createdAt :: nat64
  updatedAt :: "nat64 option"
  comments :: "string list"

record CommentPayload =
  content :: string
  postId :: string

record Comment = CommentPayload +
  id_comment :: string
  sender :: Principal

subsection \<open>The two stores\<close>

text \<open>
  Modelled from the spec: \<open>StableBTreeMap\<close> is imported from the \<open>azle\<close> package and is
  not part of the repository. Section 4.1 of the specification describes it: a mapping
  from string id to record with \<open>get(id)\<close> returning an optional record, \<open>insert(id, record)\<close>
  with upsert semantics, \<open>remove(id)\<close>, and \<open>values()\<close> returning all current records in
  a store-defined order. The store is an association list with one entry per key; a
  record read by \<open>get\<close> is a value, and the store changes only by \<open>insert\<close> and \<open>remove\<close>.
  The arguments of the constructor (\<open>new StableBTreeMap(0, 44, 1024)\<close>: a memory id and
  the largest sizes of a serialised key and value) have no counterpart in that
  description and are not modelled.
\<close>

type_synonym 'v StableBTreeMap = "(string \<times> 'v) list"

definition get_store :: "'v StableBTreeMap \<Rightarrow> string \<Rightarrow> 'v option" where
  "get_store m k = map_of m k"

definition insert_store :: "'v StableBTreeMap \<Rightarrow> string \<Rightarrow> 'v \<Rightarrow> 'v StableBTreeMap" where
  "insert_store m k v = AList.update k v m"

definition remove_store :: "'v StableBTreeMap \<Rightarrow> string \<Rightarrow> 'v StableBTreeMap" where
  "remove_store m k = AList.delete k m"

definition values_store :: "'v StableBTreeMap \<Rightarrow> 'v list" where
  "values_store m = map snd m"

record state =
  postStorage :: "Post StableBTreeMap"
  commentStorage :: "Comment StableBTreeMap"

definition init_state :: state where
  "init_state = \<lparr>postStorage = [], commentStorage = []\<rparr>"

text \<open>
  What a call reads from its surroundings: \<open>ic.caller()\<close>, \<open>ic.time()\<close> and the value
  that \<open>uuidv4()\<close> returns (each operation calls it at most once).
\<close>

record ic =
  caller :: Principal
  time :: nat64
  uuidv4 :: string

text \<open>
  The source returns \<open>Result.Err\<close> with a message. The constructor records which of the
  two kinds of failure the message reports; its argument is the message.
\<close>

datatype error = NotFound string | Forbidden string

fun is_NotFound :: "error + 'a \<Rightarrow> bool" where
  "is_NotFound (Inl (NotFound m)) = True"
| "is_NotFound r = False"

fun is_Forbidden :: "error + 'a \<Rightarrow> bool" where
  "is_Forbidden (Inl (Forbidden m)) = True"
| "is_Forbidden r = False"

section \<open>Operations\<close>

subsection \<open>Queries\<close>

definition getPosts :: "state \<Rightarrow> (error + Post list) \<times> state" where
  "getPosts s = (Inr (values_store (postStorage s)), s)"

definition getPost :: "state \<Rightarrow> string \<Rightarrow> (error + Post) \<times> state" where
  "getPost s id' =
     (case get_store (postStorage s) id' of
        Some post \<Rightarrow> (Inr post, s)
      | None \<Rightarrow> (Inl (NotFound (''A post with id='' @ id' @ '' was not found.'')), s))"

text \<open>The \<open>for\<close> loop of \<open>getCommentsOnPost\<close>; the third argument is the array \<open>comments\<close>.\<close>

fun getCommentsOnPost_loop ::
  "Comment StableBTreeMap \<Rightarrow> string list \<Rightarrow> Comment list \<Rightarrow> Comment list" where
  "getCommentsOnPost_loop cs [] acc = acc"
| "getCommentsOnPost_loop cs (commentId # rest) acc =
     (case get_store cs commentId of
        Some comment \<Rightarrow> getCommentsOnPost_loop cs rest (acc @ [comment])
      | None \<Rightarrow> getCommentsOnPost_loop cs rest acc)"

definition getCommentsOnPost :: "state \<Rightarrow> string \<Rightarrow> (error + Comment list) \<times> state" where
  "getCommentsOnPost s postId' =
     (case get_store (postStorage s) postId' of
        Some post \<Rightarrow> (Inr (getCommentsOnPost_loop (commentStorage s) (comments post) []), s)
      | None \<Rightarrow> (Inl (NotFound (''A post with id='' @ postId' @ '' was not found.'')), s))"

subsection \<open>Updates\<close>

definition createPost :: "ic \<Rightarrow> state \<Rightarrow> PostPayload \<Rightarrow> (error + Post) \<times> state" where
  "createPost env s payload =
     (let post = \<lparr>title = title payload, body = body payload, image = image payload,
                  id_post = uuidv4 env, owner = caller env, likes = 0,
                  createdAt = time env, updatedAt = None, comments = []\<rparr>
      in (Inr post, s\<lparr>postStorage := insert_store (postStorage s) (id_post post) post\<rparr>))"

definition updatePost :: "ic \<Rightarrow> state \<Rightarrow> string \<Rightarrow> PostPayload \<Rightarrow> (error + Post) \<times> state" where
  "updatePost env s id' payload =
     (case get_store (postStorage s) id' of
        Some post \<Rightarrow>
          if toString (owner post) \<noteq> toString (caller env)
          then (Inl (Forbidden ''You do not have permission to update this post.''), s)
          else
            let updatedPost = post\<lparr>title := title payload, body := body payload,
                                   image := image payload, updatedAt := Some (time env)\<rparr>
            in (Inr updatedPost,
                s\<lparr>postStorage := insert_store (postStorage s) (id_post post) updatedPost\<rparr>)
      | None \<Rightarrow>
          (Inl (NotFound (''Couldn't update a post with id='' @ id' @ ''. Post not found.'')), s))"

text \<open>
  \<open>post.likes++\<close> adds 1 to a JavaScript \<open>number\<close>, a 64-bit float with a mantissa of 53
  bits, rounding the sum to the nearest float, a tie going to the float with the even
  mantissa. \<open>likes\<close> holds integers only (it starts at 0 and nothing else changes it), and
  the model is on integers. \<open>quantum a\<close> is the distance between neighbouring floats at
  magnitude \<open>a\<close>: 1 below \<open>2 ^ 53\<close>, 2 from \<open>2 ^ 53\<close>, 4 from \<open>2 ^ 54\<close>, and so on.
  \<open>round_float64 z\<close> is the float nearest to the integer \<open>z\<close>, and \<open>number_increment\<close> is
  \<open>++\<close>: it is \<open>x + 1\<close> as long as \<open>x + 1\<close> is a float, and leaves \<open>2 ^ 53\<close> as it is.
\<close>

function quantum :: "int \<Rightarrow> int" where
  "quantum a = (if a < 2 ^ 53 then 1 else 2 * quantum (a div 2))"
  by pat_completeness auto
termination
  by (relation "measure nat") auto

declare quantum.simps [simp del]

definition round_float64 :: "int \<Rightarrow> int" where
  "round_float64 z =
     (let a = \<bar>z\<bar>; q = quantum a; m = a div q; r = a mod q;
          m' = (if q < 2 * r \<or> (2 * r = q \<and> odd m) then m + 1 else m)
      in sgn z * (m' * q))"

definition number_increment :: "int \<Rightarrow> int" where
  "number_increment x = round_float64 (x + 1)"

definition likePost :: "state \<Rightarrow> string \<Rightarrow> (error + Post) \<times> state" where
  "likePost s postId' =
     (case get_store (postStorage s) postId' of
        Some post0 \<Rightarrow>
          let post = post0\<lparr>likes := number_increment (likes post0)\<rparr>
          in (Inr post, s\<lparr>postStorage := insert_store (postStorage s) (id_post post) post\<rparr>)
      | None \<Rightarrow> (Inl (NotFound (''A post with id='' @ postId' @ '' was not found.'')), s))"

definition commentOnPost :: "ic \<Rightarrow> state \<Rightarrow> CommentPayload \<Rightarrow> (error + Comment) \<times> state" where
  "commentOnPost env s payload =
     (case get_store (postStorage s) (postId payload) of
        Some post0 \<Rightarrow>
          let comment = \<lparr>content = content payload, postId = postId payload,
                         id_comment = uuidv4 env, sender = caller env\<rparr>;
              post = post0\<lparr>comments := comments post0 @ [id_comment comment]\<rparr>;
              s1 = s\<lparr>commentStorage :=
                       insert_store (commentStorage s) (id_comment comment) comment\<rparr>;
              s2 = s1\<lparr>postStorage := insert_store (postStorage s1) (id_post post) post\<rparr>
          in (Inr comment, s2)
      | None \<Rightarrow>
          (Inl (NotFound (''A post with id='' @ postId payload @ '' was not found.'')), s))"

text \<open>\<open>Array.prototype.indexOf\<close>: the first index holding the element, or \<open>-1\<close>.\<close>

fun indexOf :: "'a list \<Rightarrow> 'a \<Rightarrow> int" where
  "indexOf [] x = -1"
| "indexOf (y # ys) x =
     (if y = x then 0 else (let i = indexOf ys x in if i = -1 then -1 else i + 1))"

text \<open>\<open>xs.splice(index, 1)\<close> for an index that is not negative: what is left in \<open>xs\<close>.\<close>

definition splice1 :: "'a list \<Rightarrow> int \<Rightarrow> 'a list" where
  "splice1 xs index = take (nat index) xs @ drop (nat index + 1) xs"

text \<open>
  In \<open>deleteComment\<close> the object \<open>post\<close> read from the post store is spliced, and the
  function then goes on to \<open>commentStorage.remove\<close>: there is no \<open>postStorage.insert\<close>.
  \<open>spliced\<close> is that local object; nothing reads it afterwards.
\<close>

definition deleteComment :: "ic \<Rightarrow> state \<Rightarrow> string \<Rightarrow> (error + Comment) \<times> state" where
  "deleteComment env s id' =
     (case get_store (commentStorage s) id' of
        Some comment \<Rightarrow>
          if toString (sender comment) \<noteq> toString (caller env)
          then (Inl (Forbidden ''You do not have permission to delete this comment.''), s)
          else
            let spliced =
                  (case get_store (postStorage s) (postId comment) of
                     Some post \<Rightarrow>
                       (let index = indexOf (comments post) id'
                        in if index > -1
                           then Some (post\<lparr>comments := splice1 (comments post) index\<rparr>)
                           else Some post)
                   | None \<Rightarrow> None)
            in (Inr comment, s\<lparr>commentStorage := remove_store (commentStorage s) id'\<rparr>)
      | None \<Rightarrow>
          (Inl (NotFound
             (''Couldn't delete a comment with id='' @ id' @ ''. Comment not found.'')), s))"

text \<open>
  The \<open>for\<close> loop of \<open>deletePost\<close> over the snapshot \<open>commentStorage.values()\<close>; the
  third argument is the comment store as the loop changes it.
\<close>

fun deletePost_loop ::
  "string \<Rightarrow> Comment list \<Rightarrow> Comment StableBTreeMap \<Rightarrow> Comment StableBTreeMap" where
  "deletePost_loop id' [] cs = cs"
| "deletePost_loop id' (comment # rest) cs =
     (if postId comment = id'
      then deletePost_loop id' rest (remove_store cs (id_comment comment))
      else deletePost_loop id' rest cs)"

definition deletePost :: "ic \<Rightarrow> state \<Rightarrow> string \<Rightarrow> (error + Post) \<times> state" where
  "deletePost env s id' =
     (case get_store (postStorage s) id' of
        Some post \<Rightarrow>
          if toString (owner post) \<noteq> toString (caller env)
          then (Inl (Forbidden ''You do not have permission to delete this post.''), s)
          else
            let comments' = values_store (commentStorage s);
                s1 = s\<lparr>commentStorage := deletePost_loop id' comments' (commentStorage s)\<rparr>;
                s2 = s1\<lparr>postStorage := remove_store (postStorage s1) id'\<rparr>
            in (Inr post, s2)
      | None \<Rightarrow>
          (Inl (NotFound (''Couldn't delete a post with id='' @ id' @ ''. Post not found.'')), s))"

section \<open>The operations as one transition function\<close>

text \<open>
  The nine exported functions, as the requests a caller can send. \<open>step\<close> is the
  state a request leaves behind.
\<close>

datatype request =
    GetPosts
  | GetPost string
  | CreatePost PostPayload
  | UpdatePost string PostPayload
  | LikePost string
  | GetCommentsOnPost string
  | CommentOnPost CommentPayload
  | DeleteComment string
  | DeletePost string

fun step :: "ic \<Rightarrow> state \<Rightarrow> request \<Rightarrow> state" where
  "step env s GetPosts = snd (getPosts s)"
| "step env s (GetPost id') = snd (getPost s id')"
| "step env s (CreatePost payload) = snd (createPost env s payload)"
| "step env s (UpdatePost id' payload) = snd (updatePost env s id' payload)"
| "step env s (LikePost postId') = snd (likePost s postId')"
| "step env s (GetCommentsOnPost postId') = snd (getCommentsOnPost s postId')"
| "step env s (CommentOnPost payload) = snd (commentOnPost env s payload)"
| "step env s (DeleteComment id') = snd (deleteComment env s id')"
| "step env s (DeletePost id') = snd (deletePost env s id')"

fun run :: "state \<Rightarrow> (ic \<times> request) list \<Rightarrow> state" where
  "run s [] = s"
| "run s ((env, r) # rest) = run (step env s r) rest"

subsection \<open>Stores keyed by the id of the record\<close>

text \<open>
  Every \<open>insert\<close> of the source stores a record under its own id
  (\<open>postStorage.insert(post.id, post)\<close>, \<open>commentStorage.insert(comment.id, comment)\<close>),
  and a store holds one entry per key. \<open>keyed_by\<close> says so of a store; it holds of the
  empty stores and every operation keeps it (\<open>wf_state_run\<close> below).
\<close>

definition keyed_by :: "('v \<Rightarrow> string) \<Rightarrow> 'v StableBTreeMap \<Rightarrow> bool" where
  "keyed_by key m = (distinct (map fst m) \<and> list_all (\<lambda>(k, v). key v = k) m)"

definition wf_state :: "state \<Rightarrow> bool" where
  "wf_state s = (keyed_by id_post (postStorage s) \<and> keyed_by id_comment (commentStorage s))"

text \<open>
  A post is made with \<open>likes = 0\<close> and only \<open>post.likes++\<close> changes the field, so the
  \<open>likes\<close> of a stored post is an integer from 0 to \<open>2 ^ 53\<close>. \<open>likes_in_range\<close> says so
  of a state; it holds of the empty stores and every operation keeps it
  (\<open>likes_in_range_reachable\<close> below).
\<close>

definition likes_in_range :: "state \<Rightarrow> bool" where
  "likes_in_range s = list_all (\<lambda>(k, p). 0 \<le> likes p \<and> likes p \<le> 2 ^ 53) (postStorage s)"

subsection \<open>A concrete scenario\<close>

definition alice :: Principal where
  "alice = Principal ''alice''"

definition bob :: Principal where
  "bob = Principal ''bob''"

definition env_alice :: ic where
  "env_alice = \<lparr>caller = alice, time = 1, uuidv4 = ''p1''\<rparr>"

definition env_bob :: ic where
  "env_bob = \<lparr>caller = bob, time = 2, uuidv4 = ''c1''\<rparr>"

definition payload_AB :: PostPayload where
  "payload_AB = \<lparr>title = ''A'', body = ''B'', image = []\<rparr>"

definition payload_hi :: CommentPayload where
  "payload_hi = \<lparr>content = ''hi'', postId = ''p1''\<rparr>"

definition post_p1 :: Post where
  "post_p1 = \<lparr>title = ''A'', body = ''B'', image = [], id_post = ''p1'', owner = alice,
              likes = 0, createdAt = 1, updatedAt = None, comments = [''c1'']\<rparr>"

definition comment_c1 :: Comment where
  "comment_c1 = \<lparr>content = ''hi'', postId = ''p1'', id_comment = ''c1'', sender = bob\<rparr>"

text \<open>
  The state after \<open>createPost\<close> by alice and \<open>commentOnPost\<close> by bob
  (\<open>scenario_state_reached\<close> below).
\<close>

definition scenario_state :: state where
  "scenario_state =
     \<lparr>postStorage = [(''p1'', post_p1)], commentStorage = [(''c1'', comment_c1)]\<rparr>"

text \<open>
  A state with a comment on \<open>p1\<close> whose id is not in the sequence of \<open>p1\<close>, and a post
  \<open>p2\<close> whose sequence holds an id that no longer resolves.
\<close>

definition comment_c9 :: Comment where
  "comment_c9 = \<lparr>content = ''x'', postId = ''p1'', id_comment = ''c9'', sender = bob\<rparr>"

definition comment_d1 :: Comment where
  "comment_d1 = \<lparr>content = ''y'', postId = ''p2'', id_comment = ''d1'', sender = bob\<rparr>"

definition post_p2 :: Post where
  "post_p2 = \<lparr>title = ''C'', body = ''D'', image = [], id_post = ''p2'', owner = bob,
              likes = 3, createdAt = 1, updatedAt = None, comments = [''d1'', ''gone'']\<rparr>"

definition drift_state :: state where
  "drift_state =
     \<lparr>postStorage = [(''p1'', post_p1), (''p2'', post_p2)],
      commentStorage = [(''c1'', comment_c1), (''c9'', comment_c9), (''d1'', comment_d1)]\<rparr>"

text \<open>A post whose counter has reached \<open>2 ^ 53\<close>.\<close>

definition post_max :: Post where
  "post_max = \<lparr>title = ''A'', body = ''B'', image = [], id_post = ''p1'', owner = alice,
               likes = 2 ^ 53, createdAt = 1, updatedAt = None, comments = []\<rparr>"

definition state_max :: state where
  "state_max = \<lparr>postStorage = [(''p1'', post_max)], commentStorage = []\<rparr>"

lemmas scenario_defs =
  alice_def bob_def env_alice_def env_bob_def payload_AB_def payload_hi_def post_p1_def
  comment_c1_def scenario_state_def comment_c9_def comment_d1_def post_p2_def drift_state_def
  post_max_def state_max_def

lemmas store_defs = get_store_def insert_store_def remove_store_def values_store_def

section \<open>Facts about the stores\<close>

lemma get_insert_store:
  "get_store (insert_store m k v) k' = (if k' = k then Some v else get_store m k')"
  by (simp add: get_store_def insert_store_def update_conv')

lemma get_remove_store:
  "get_store (remove_store m k) k' = (if k' = k then None else get_store m k')"
  by (simp add: get_store_def remove_store_def delete_conv')

lemma keyed_by_get:
  "keyed_by key m \<Longrightarrow> get_store m k = Some v \<Longrightarrow> key v = k"
  by (auto simp: keyed_by_def get_store_def list_all_iff dest!: map_of_SomeD)

lemma keyed_by_mem:
  "keyed_by key m \<Longrightarrow> (k, v) \<in> set m \<longleftrightarrow> get_store m k = Some v"
  by (simp add: keyed_by_def get_store_def)

lemma set_update_subset: "set (AList.update k v m) \<subseteq> insert (k, v) (set m)"
  by (induction m) auto

lemma keyed_by_insert:
  assumes "keyed_by key m" and "key v = k"
  shows "keyed_by key (insert_store m k v)"
proof -
  have "distinct (map fst (AList.update k v m))"
    using assms(1) by (simp add: keyed_by_def distinct_update)
  moreover have "list_all (\<lambda>(k, v). key v = k) (AList.update k v m)"
    using assms set_update_subset [of k v m]
    by (auto simp: keyed_by_def list_all_iff)
  ultimately show ?thesis
    by (simp add: keyed_by_def insert_store_def)
qed

lemma keyed_by_remove:
  "keyed_by key m \<Longrightarrow> keyed_by key (remove_store m k)"
  by (auto simp: keyed_by_def remove_store_def list_all_iff AList.delete_eq
      intro: distinct_map_filter)

section \<open>Facts about the loops\<close>

lemma getCommentsOnPost_loop_eq:
  "getCommentsOnPost_loop cs ids acc = acc @ List.map_filter (get_store cs) ids"
  by (induction ids arbitrary: acc) (simp_all split: option.split)

lemma indexOf_lower: "-1 \<le> indexOf xs x"
  by (induction xs) (auto simp: Let_def)

lemma indexOf_absent: "indexOf xs x = -1 \<longleftrightarrow> x \<notin> set xs"
proof (induction xs)
  case Nil
  show ?case by simp
next
  case (Cons y ys)
  with indexOf_lower [of ys x] show ?case by (auto simp: Let_def)
qed

lemma splice1_indexOf: "x \<in> set xs \<Longrightarrow> splice1 xs (indexOf xs x) = remove1 x xs"
proof (induction xs)
  case Nil
  then show ?case by simp
next
  case (Cons y ys)
  show ?case
  proof (cases "y = x")
    case True
    then show ?thesis by (simp add: splice1_def)
  next
    case False
    with Cons.prems have mem: "x \<in> set ys" by simp
    then have "indexOf ys x \<noteq> -1" by (simp add: indexOf_absent)
    with indexOf_lower [of ys x] have nonneg: "0 \<le> indexOf ys x" by linarith
    then have "nat (indexOf ys x + 1) = Suc (nat (indexOf ys x))" by linarith
    with False mem nonneg Cons.IH show ?thesis
      using \<open>indexOf ys x \<noteq> -1\<close> by (simp add: splice1_def Let_def)
  qed
qed

lemma deletePost_loop_get:
  "get_store (deletePost_loop id' cmts cs) k =
     (if k \<in> id_comment ` {c \<in> set cmts. postId c = id'} then None else get_store cs k)"
  by (induction cmts arbitrary: cs) (auto simp: get_remove_store)

lemma keyed_by_deletePost_loop:
  "keyed_by key cs \<Longrightarrow> keyed_by key (deletePost_loop id' cmts cs)"
  by (induction cmts arbitrary: cs) (simp_all add: keyed_by_remove)

text \<open>
  On a comment store keyed by comment id, the loop of \<open>deletePost\<close> run over
  \<open>values()\<close> leaves exactly the comments of the other posts.
\<close>

lemma deletePost_loop_values:
  assumes "keyed_by id_comment cs"
  shows "get_store (deletePost_loop id' (values_store cs) cs) k =
           (case get_store cs k of
              Some c \<Rightarrow> if postId c = id' then None else Some c
            | None \<Rightarrow> None)"
proof (cases "get_store cs k")
  case None
  then show ?thesis by (simp add: deletePost_loop_get)
next
  case (Some c)
  with assms have key: "id_comment c = k" by (rule keyed_by_get)
  from assms Some have mem: "(k, c) \<in> set cs" by (simp add: keyed_by_mem)
  then have val: "c \<in> set (values_store cs)" by (force simp: values_store_def)
  show ?thesis
  proof (cases "postId c = id'")
    case True
    with val key have "k \<in> id_comment ` {c \<in> set (values_store cs). postId c = id'}"
      by blast
    with Some True show ?thesis by (simp add: deletePost_loop_get)
  next
    case False
    have "k \<notin> id_comment ` {c \<in> set (values_store cs). postId c = id'}"
    proof
      assume "k \<in> id_comment ` {c \<in> set (values_store cs). postId c = id'}"
      then obtain c' where c': "c' \<in> set (values_store cs)" "postId c' = id'" "id_comment c' = k"
        by blast
      from c'(1) obtain k' where "(k', c') \<in> set cs" by (auto simp: values_store_def)
      with assms have "get_store cs k' = Some c'" by (simp add: keyed_by_mem)
      with assms c'(3) have "get_store cs k = Some c'" using keyed_by_get by fastforce
      with Some c'(2) False show False by simp
    qed
    with Some False show ?thesis by (simp add: deletePost_loop_get)
  qed
qed

section \<open>Every operation keeps the stores keyed by id\<close>

lemma wf_state_init: "wf_state init_state"
  by (simp add: wf_state_def init_state_def keyed_by_def)

lemma wf_state_createPost: "wf_state s \<Longrightarrow> wf_state (snd (createPost env s payload))"
  by (simp add: wf_state_def createPost_def Let_def keyed_by_insert)

lemma wf_state_updatePost: "wf_state s \<Longrightarrow> wf_state (snd (updatePost env s id' payload))"
  by (simp add: wf_state_def updatePost_def Let_def keyed_by_insert split: option.split)

lemma wf_state_likePost: "wf_state s \<Longrightarrow> wf_state (snd (likePost s postId'))"
  by (simp add: wf_state_def likePost_def Let_def keyed_by_insert split: option.split)

lemma wf_state_commentOnPost: "wf_state s \<Longrightarrow> wf_state (snd (commentOnPost env s payload))"
  by (simp add: wf_state_def commentOnPost_def Let_def keyed_by_insert split: option.split)

lemma wf_state_deleteComment: "wf_state s \<Longrightarrow> wf_state (snd (deleteComment env s id'))"
  by (simp add: wf_state_def deleteComment_def Let_def keyed_by_remove split: option.split)

lemma wf_state_deletePost: "wf_state s \<Longrightarrow> wf_state (snd (deletePost env s id'))"
  by (simp add: wf_state_def deletePost_def Let_def keyed_by_remove keyed_by_deletePost_loop
      split: option.split)

lemma wf_state_step: "wf_state s \<Longrightarrow> wf_state (step env s r)"
  by (cases r)
    (simp_all add: getPosts_def getPost_def getCommentsOnPost_def wf_state_createPost
      wf_state_updatePost wf_state_likePost wf_state_commentOnPost wf_state_deleteComment
      wf_state_deletePost split: option.split)

lemma wf_state_run: "wf_state s \<Longrightarrow> wf_state (run s tr)"
  by (induction tr arbitrary: s) (auto simp: wf_state_step)

lemma wf_state_reachable: "wf_state (run init_state tr)"
  by (rule wf_state_run [OF wf_state_init])

lemma scenario_state_reached:
  "run init_state [(env_alice, CreatePost payload_AB), (env_bob, CommentOnPost payload_hi)]
     = scenario_state"
  by (simp add: init_state_def createPost_def commentOnPost_def scenario_defs store_defs Let_def)

section \<open>Facts about the increment of a number\<close>

lemma quantum_small: "a < 2 ^ 53 \<Longrightarrow> quantum a = 1"
  by (subst quantum.simps) simp

lemma quantum_large: "2 ^ 53 \<le> a \<Longrightarrow> quantum a = 2 * quantum (a div 2)"
  by (subst quantum.simps) simp

lemma round_float64_small: "\<bar>z\<bar> < 2 ^ 53 \<Longrightarrow> round_float64 z = z"
  by (simp add: round_float64_def Let_def quantum_small mult_sgn_abs)

lemma round_float64_2_53: "round_float64 (2 ^ 53) = 2 ^ 53"
  by (simp add: round_float64_def Let_def quantum_large quantum_small)

lemma number_increment_max: "number_increment (2 ^ 53) = 2 ^ 53"
  by (simp add: number_increment_def round_float64_def Let_def quantum_large quantum_small)

lemma number_increment_exact:
  assumes "0 \<le> x" and "x < 2 ^ 53"
  shows "number_increment x = x + 1"
proof (cases "x + 1 < 2 ^ 53")
  case True
  with assms have "\<bar>x + 1\<bar> < 2 ^ 53" by simp
  then show ?thesis unfolding number_increment_def by (rule round_float64_small)
next
  case False
  with assms have "x + 1 = 2 ^ 53" by simp
  with round_float64_2_53 show ?thesis by (simp add: number_increment_def)
qed

lemma number_increment_min:
  assumes "0 \<le> x" and "x \<le> 2 ^ 53"
  shows "number_increment x = min (x + 1) (2 ^ 53)"
proof (cases "x < 2 ^ 53")
  case True
  with assms(1) show ?thesis by (simp add: number_increment_exact)
next
  case False
  with assms(2) have "x = 2 ^ 53" by simp
  with number_increment_max show ?thesis by simp
qed

lemma number_increment_range:
  assumes "0 \<le> x" and "x \<le> 2 ^ 53"
  shows "x \<le> number_increment x" and "0 \<le> number_increment x"
    and "number_increment x \<le> 2 ^ 53"
  using assms by (simp_all add: number_increment_min)

section \<open>Every operation keeps the likes counters in range\<close>

lemma likes_in_range_get:
  "likes_in_range s \<Longrightarrow> get_store (postStorage s) k = Some p
     \<Longrightarrow> 0 \<le> likes p \<and> likes p \<le> 2 ^ 53"
  by (auto simp: likes_in_range_def get_store_def list_all_iff dest!: map_of_SomeD)

lemma list_all_insert_store:
  "list_all P m \<Longrightarrow> P (k, v) \<Longrightarrow> list_all P (insert_store m k v)"
  using set_update_subset [of k v m] by (auto simp: insert_store_def list_all_iff)

lemma list_all_remove_store:
  "list_all P m \<Longrightarrow> list_all P (remove_store m k)"
  by (auto simp: remove_store_def list_all_iff AList.delete_eq)

lemma likes_in_range_init: "likes_in_range init_state"
  by (simp add: likes_in_range_def init_state_def)

lemma likes_in_range_createPost:
  "likes_in_range s \<Longrightarrow> likes_in_range (snd (createPost env s payload))"
  by (simp add: likes_in_range_def createPost_def Let_def list_all_insert_store)

lemma likes_in_range_updatePost:
  assumes "likes_in_range s"
  shows "likes_in_range (snd (updatePost env s id' payload))"
proof (cases "get_store (postStorage s) id'")
  case None
  with assms show ?thesis by (simp add: updatePost_def)
next
  case (Some post)
  with assms have "0 \<le> likes post \<and> likes post \<le> 2 ^ 53" by (rule likes_in_range_get)
  with assms Some show ?thesis
    by (simp add: likes_in_range_def updatePost_def Let_def list_all_insert_store)
qed

lemma likes_in_range_likePost:
  assumes "likes_in_range s"
  shows "likes_in_range (snd (likePost s postId'))"
proof (cases "get_store (postStorage s) postId'")
  case None
  with assms show ?thesis by (simp add: likePost_def)
next
  case (Some post)
  with assms have "0 \<le> likes post \<and> likes post \<le> 2 ^ 53" by (rule likes_in_range_get)
  with number_increment_range [of "likes post"]
  have "0 \<le> number_increment (likes post) \<and> number_increment (likes post) \<le> 2 ^ 53"
    by simp
  with assms Some show ?thesis
    by (simp add: likes_in_range_def likePost_def Let_def list_all_insert_store)
qed

lemma likes_in_range_commentOnPost:
  assumes "likes_in_range s"
  shows "likes_in_range (snd (commentOnPost env s payload))"
proof (cases "get_store (postStorage s) (postId payload)")
  case None
  with assms show ?thesis by (simp add: commentOnPost_def)
next
  case (Some post)
  with assms have "0 \<le> likes post \<and> likes post \<le> 2 ^ 53" by (rule likes_in_range_get)
  with assms Some show ?thesis
    by (simp add: likes_in_range_def commentOnPost_def Let_def list_all_insert_store)
qed

lemma likes_in_range_deleteComment:
  "likes_in_range s \<Longrightarrow> likes_in_range (snd (deleteComment env s id'))"
  by (simp add: likes_in_range_def deleteComment_def Let_def split: option.split)

lemma likes_in_range_deletePost:
  "likes_in_range s \<Longrightarrow> likes_in_range (snd (deletePost env s id'))"
  by (simp add: likes_in_range_def deletePost_def Let_def list_all_remove_store
      split: option.split)

lemma likes_in_range_step: "likes_in_range s \<Longrightarrow> likes_in_range (step env s r)"
  by (cases r)
    (simp_all add: getPosts_def getPost_def getCommentsOnPost_def likes_in_range_createPost
      likes_in_range_updatePost likes_in_range_likePost likes_in_range_commentOnPost
      likes_in_range_deleteComment likes_in_range_deletePost split: option.split)

lemma likes_in_range_run: "likes_in_range s \<Longrightarrow> likes_in_range (run s tr)"
  by (induction tr arbitrary: s) (auto simp: likes_in_range_step)

lemma likes_in_range_reachable: "likes_in_range (run init_state tr)"
  by (rule likes_in_range_run [OF likes_in_range_init])

section \<open>createPost and getPost\<close>

text \<open>
  C8: for every payload, \<open>createPost\<close> succeeds and returns a post whose id is the
  generated one, with \<open>likes = 0\<close>, \<open>comments = []\<close>, \<open>updatedAt\<close> absent, the caller as
  owner, the current time as \<open>createdAt\<close> and the title, body and image of the payload;
  \<open>getPost\<close> on the new id in the state it leaves returns that same record.
\<close>

theorem createPost_then_getPost:
  "\<exists>p s'. createPost env s payload = (Inr p, s')
      \<and> id_post p = uuidv4 env \<and> likes p = 0 \<and> comments p = [] \<and> updatedAt p = None
      \<and> owner p = caller env \<and> createdAt p = time env
      \<and> title p = title payload \<and> body p = body payload \<and> image p = image payload
      \<and> fst (getPost s' (id_post p)) = Inr p
      \<and> commentStorage s' = commentStorage s"
  by (simp add: createPost_def getPost_def Let_def get_insert_store)

theorem createPost_then_getPost_witness:
  "\<exists>s'. createPost env_alice init_state payload_AB
          = (Inr (post_p1\<lparr>comments := []\<rparr>), s')
      \<and> fst (getPost s' ''p1'') = Inr (post_p1\<lparr>comments := []\<rparr>)"
proof -
  from createPost_then_getPost [of env_alice init_state payload_AB] obtain p s' where
    r: "createPost env_alice init_state payload_AB = (Inr p, s')"
      "id_post p = uuidv4 env_alice" "fst (getPost s' (id_post p)) = Inr p"
    by blast
  from r(1) have "p = post_p1\<lparr>comments := []\<rparr>"
    by (auto simp: createPost_def Let_def scenario_defs)
  with r show ?thesis by (simp add: env_alice_def)
qed

section \<open>getCommentsOnPost\<close>

text \<open>
  C7: \<open>getCommentsOnPost\<close> (the specification's \<open>listCommentsForPost\<close>) fails with
  NotFound when no post has the id; otherwise it returns, in the order of the post's
  \<open>comments\<close> sequence, the records that the ids of the sequence resolve to in the
  comment store, leaving out every id that does not resolve; it changes neither store.
\<close>

theorem getCommentsOnPost_resolves_sequence:
  "(get_store (postStorage s) postId' = None \<longrightarrow>
      is_NotFound (fst (getCommentsOnPost s postId')))
   \<and> (\<forall>post. get_store (postStorage s) postId' = Some post \<longrightarrow>
         fst (getCommentsOnPost s postId') =
           Inr (List.map_filter (get_store (commentStorage s)) (comments post)))
   \<and> snd (getCommentsOnPost s postId') = s"
  by (simp add: getCommentsOnPost_def getCommentsOnPost_loop_eq split: option.split)

theorem getCommentsOnPost_resolves_sequence_witness:
  "get_store (postStorage drift_state) ''zz'' = None
   \<and> is_NotFound (fst (getCommentsOnPost drift_state ''zz''))
   \<and> get_store (postStorage drift_state) ''p2'' = Some post_p2
   \<and> comments post_p2 = [''d1'', ''gone'']
   \<and> fst (getCommentsOnPost drift_state ''p2'') = Inr [comment_d1]
   \<and> snd (getCommentsOnPost drift_state ''p2'') = drift_state"
  using getCommentsOnPost_resolves_sequence [of drift_state "''zz''"]
    getCommentsOnPost_resolves_sequence [of drift_state "''p2''"]
  by (simp add: scenario_defs store_defs)

section \<open>deleteComment\<close>

text \<open>What \<open>deleteComment\<close> does for the sender of an existing comment.\<close>

lemma deleteComment_by_sender:
  assumes "get_store (commentStorage s) id' = Some c" and "sender c = caller env"
  shows "deleteComment env s id' =
           (Inr c, s\<lparr>commentStorage := remove_store (commentStorage s) id'\<rparr>)"
  using assms by (simp add: deleteComment_def Let_def)

text \<open>
  C1, at a concrete input: alice creates post \<open>p1\<close>, bob comments on it (comment \<open>c1\<close>),
  bob deletes \<open>c1\<close>. The call succeeds and returns the comment, the comment is gone from
  the comment store, and the post stored at \<open>p1\<close> is the record it was: its \<open>comments\<close>
  sequence is still \<open>[c1]\<close>, where removing the first occurrence of \<open>c1\<close> gives \<open>[]\<close>.
\<close>

theorem deleteComment_sequence_not_persisted:
  "fst (deleteComment env_bob scenario_state ''c1'') = Inr comment_c1
   \<and> get_store (commentStorage (snd (deleteComment env_bob scenario_state ''c1''))) ''c1'' = None
   \<and> get_store (postStorage (snd (deleteComment env_bob scenario_state ''c1''))) ''p1''
       = Some post_p1
   \<and> comments post_p1 = [''c1'']
   \<and> remove1 ''c1'' (comments post_p1) = []"
  by (simp add: deleteComment_def Let_def scenario_defs store_defs)

text \<open>
  C2: \<open>deleteComment\<close> never writes to the post store: whatever the state and the id,
  the post store after the call is the post store before it. So when the call succeeds
  and the owning post's stored \<open>comments\<close> sequence held the id of the deleted comment,
  the sequence stored afterwards still holds it.
\<close>

theorem deleteComment_postStorage_unchanged:
  "postStorage (snd (deleteComment env s id')) = postStorage s
   \<and> (fst (deleteComment env s id') = Inr c \<longrightarrow>
        get_store (postStorage s) (postId c) = Some p \<longrightarrow> id' \<in> set (comments p) \<longrightarrow>
        get_store (postStorage (snd (deleteComment env s id'))) (postId c) = Some p)"
proof -
  have "postStorage (snd (deleteComment env s id')) = postStorage s"
    by (simp add: deleteComment_def Let_def split: option.split)
  then show ?thesis by simp
qed

theorem deleteComment_postStorage_unchanged_witness:
  "fst (deleteComment env_bob scenario_state ''c1'') = Inr comment_c1
   \<and> get_store (postStorage scenario_state) (postId comment_c1) = Some post_p1
   \<and> ''c1'' \<in> set (comments post_p1)
   \<and> postStorage (snd (deleteComment env_bob scenario_state ''c1'')) = postStorage scenario_state
   \<and> get_store (postStorage (snd (deleteComment env_bob scenario_state ''c1'')))
        (postId comment_c1) = Some post_p1"
proof -
  have h1: "fst (deleteComment env_bob scenario_state ''c1'') = Inr comment_c1"
    by (simp add: deleteComment_def Let_def scenario_defs store_defs)
  have h2: "get_store (postStorage scenario_state) (postId comment_c1) = Some post_p1"
    by (simp add: scenario_defs store_defs)
  have h3: "''c1'' \<in> set (comments post_p1)"
    by (simp add: scenario_defs)
  from deleteComment_postStorage_unchanged
         [of env_bob scenario_state "''c1''" comment_c1 post_p1] h1 h2 h3
  show ?thesis by simp
qed

section \<open>deletePost\<close>

text \<open>
  C3: for a post \<open>p\<close> of the post store whose owner is the caller, \<open>deletePost\<close> on the id of
  \<open>p\<close> succeeds and returns \<open>p\<close> as it was stored (its \<open>comments\<close> field included), removes
  \<open>p\<close> from the post store and leaves the other posts alone, and removes from the comment
  store exactly the comments whose \<open>postId\<close> is the id of \<open>p\<close>, whether or not their ids
  are in the \<open>comments\<close> sequence of \<open>p\<close>: afterwards no comment of the comment store has
  that \<open>postId\<close>. The stores are keyed by the ids of their records, as in every state the
  operations reach.
\<close>

theorem deletePost_cascade:
  assumes "wf_state s" and "get_store (postStorage s) k = Some p" and "owner p = caller env"
  shows "\<exists>s'. deletePost env s (id_post p) = (Inr p, s')
     \<and> get_store (postStorage s') (id_post p) = None
     \<and> (\<forall>j. j \<noteq> id_post p \<longrightarrow> get_store (postStorage s') j = get_store (postStorage s) j)
     \<and> (\<forall>j. get_store (commentStorage s') j =
              (case get_store (commentStorage s) j of
                 Some c \<Rightarrow> if postId c = id_post p then None else Some c
               | None \<Rightarrow> None))
     \<and> (\<forall>c \<in> set (values_store (commentStorage s')). postId c \<noteq> id_post p)"
proof -
  from assms(1) have kp: "keyed_by id_post (postStorage s)"
    and kc: "keyed_by id_comment (commentStorage s)"
    by (simp_all add: wf_state_def)
  from kp assms(2) have key: "id_post p = k" by (rule keyed_by_get)
  define cs' where
    "cs' = deletePost_loop (id_post p) (values_store (commentStorage s)) (commentStorage s)"
  define s' where
    "s' = s\<lparr>commentStorage := cs', postStorage := remove_store (postStorage s) (id_post p)\<rparr>"
  have res: "deletePost env s (id_post p) = (Inr p, s')"
    using assms(2,3) key by (simp add: deletePost_def Let_def s'_def cs'_def)
  have posts: "get_store (postStorage s') j = (if j = id_post p then None else get_store (postStorage s) j)"
    for j by (simp add: s'_def get_remove_store)
  have cmts: "get_store (commentStorage s') j =
      (case get_store (commentStorage s) j of
         Some c \<Rightarrow> if postId c = id_post p then None else Some c
       | None \<Rightarrow> None)" for j
    using deletePost_loop_values [OF kc, of "id_post p" j] by (simp add: s'_def cs'_def)
  have kc': "keyed_by id_comment (commentStorage s')"
    using kc by (simp add: s'_def cs'_def keyed_by_deletePost_loop)
  have none: "postId c \<noteq> id_post p" if "c \<in> set (values_store (commentStorage s'))" for c
  proof -
    from that obtain j where "(j, c) \<in> set (commentStorage s')"
      by (auto simp: values_store_def)
    with kc' have "get_store (commentStorage s') j = Some c" by (simp add: keyed_by_mem)
    with cmts [of j] show ?thesis by (auto split: option.splits if_splits)
  qed
  from res posts cmts none show ?thesis by auto
qed

theorem deletePost_cascade_witness:
  "wf_state drift_state
   \<and> get_store (postStorage drift_state) ''p1'' = Some post_p1
   \<and> owner post_p1 = caller env_alice
   \<and> get_store (commentStorage drift_state) ''c9'' = Some comment_c9
   \<and> postId comment_c9 = id_post post_p1 \<and> ''c9'' \<notin> set (comments post_p1)
   \<and> (\<exists>s'. deletePost env_alice drift_state (id_post post_p1) = (Inr post_p1, s')
        \<and> get_store (postStorage s') (id_post post_p1) = None
        \<and> get_store (commentStorage s') ''c9'' = None
        \<and> (\<forall>c \<in> set (values_store (commentStorage s')). postId c \<noteq> id_post post_p1))"
proof -
  have h1: "wf_state drift_state"
    by (simp add: wf_state_def keyed_by_def scenario_defs)
  have h2: "get_store (postStorage drift_state) ''p1'' = Some post_p1"
    by (simp add: scenario_defs store_defs)
  have h3: "owner post_p1 = caller env_alice"
    by (simp add: scenario_defs)
  have h4: "get_store (commentStorage drift_state) ''c9'' = Some comment_c9"
    by (simp add: scenario_defs store_defs)
  have h5: "postId comment_c9 = id_post post_p1 \<and> ''c9'' \<notin> set (comments post_p1)"
    by (simp add: scenario_defs)
  from deletePost_cascade [OF h1 h2 h3] obtain s' where
    s': "deletePost env_alice drift_state (id_post post_p1) = (Inr post_p1, s')"
      "get_store (postStorage s') (id_post post_p1) = None"
      "\<forall>j. get_store (commentStorage s') j =
              (case get_store (commentStorage drift_state) j of
                 Some c \<Rightarrow> if postId c = id_post post_p1 then None else Some c
               | None \<Rightarrow> None)"
      "\<forall>c \<in> set (values_store (commentStorage s')). postId c \<noteq> id_post post_p1"
    by blast
  from s'(3) h4 h5 have "get_store (commentStorage s') ''c9'' = None" by simp
  with h1 h2 h3 h4 h5 s'(1,2,4) show ?thesis by blast
qed

section \<open>Failures\<close>

text \<open>
  C4: whenever \<open>updatePost\<close>, \<open>likePost\<close>, \<open>commentOnPost\<close>, \<open>deleteComment\<close> or \<open>deletePost\<close>
  returns an error, the state it leaves (both stores) is the state it started from.
\<close>

theorem error_leaves_stores_unchanged:
  "(isl (fst (updatePost env s i1 pp)) \<longrightarrow> snd (updatePost env s i1 pp) = s)
   \<and> (isl (fst (likePost s i2)) \<longrightarrow> snd (likePost s i2) = s)
   \<and> (isl (fst (commentOnPost env s cp)) \<longrightarrow> snd (commentOnPost env s cp) = s)
   \<and> (isl (fst (deleteComment env s i3)) \<longrightarrow> snd (deleteComment env s i3) = s)
   \<and> (isl (fst (deletePost env s i4)) \<longrightarrow> snd (deletePost env s i4) = s)"
proof -
  have "isl (fst (updatePost env s i1 pp)) \<longrightarrow> snd (updatePost env s i1 pp) = s"
    by (simp add: updatePost_def Let_def split: option.split)
  moreover have "isl (fst (likePost s i2)) \<longrightarrow> snd (likePost s i2) = s"
    by (simp add: likePost_def Let_def split: option.split)
  moreover have "isl (fst (commentOnPost env s cp)) \<longrightarrow> snd (commentOnPost env s cp) = s"
    by (simp add: commentOnPost_def Let_def split: option.split)
  moreover have "isl (fst (deleteComment env s i3)) \<longrightarrow> snd (deleteComment env s i3) = s"
    by (simp add: deleteComment_def Let_def split: option.split)
  moreover have "isl (fst (deletePost env s i4)) \<longrightarrow> snd (deletePost env s i4) = s"
    by (simp add: deletePost_def Let_def split: option.split)
  ultimately show ?thesis by blast
qed

theorem error_leaves_stores_unchanged_witness:
  "is_Forbidden (fst (updatePost env_bob scenario_state ''p1'' payload_AB))
   \<and> snd (updatePost env_bob scenario_state ''p1'' payload_AB) = scenario_state
   \<and> is_NotFound (fst (likePost scenario_state ''zz''))
   \<and> snd (likePost scenario_state ''zz'') = scenario_state
   \<and> is_NotFound (fst (commentOnPost env_bob scenario_state \<lparr>content = ''hi'', postId = ''zz''\<rparr>))
   \<and> snd (commentOnPost env_bob scenario_state \<lparr>content = ''hi'', postId = ''zz''\<rparr>)
       = scenario_state
   \<and> is_Forbidden (fst (deleteComment env_alice scenario_state ''c1''))
   \<and> snd (deleteComment env_alice scenario_state ''c1'') = scenario_state
   \<and> is_Forbidden (fst (deletePost env_bob scenario_state ''p1''))
   \<and> snd (deletePost env_bob scenario_state ''p1'') = scenario_state"
proof -
  have e1: "fst (updatePost env_bob scenario_state ''p1'' payload_AB)
              = Inl (Forbidden ''You do not have permission to update this post.'')"
    by (simp add: updatePost_def scenario_defs store_defs)
  have e2: "fst (likePost scenario_state ''zz'')
              = Inl (NotFound ''A post with id=zz was not found.'')"
    by (simp add: likePost_def scenario_defs store_defs)
  have e3: "fst (commentOnPost env_bob scenario_state \<lparr>content = ''hi'', postId = ''zz''\<rparr>)
              = Inl (NotFound ''A post with id=zz was not found.'')"
    by (simp add: commentOnPost_def scenario_defs store_defs)
  have e4: "fst (deleteComment env_alice scenario_state ''c1'')
              = Inl (Forbidden ''You do not have permission to delete this comment.'')"
    by (simp add: deleteComment_def scenario_defs store_defs)
  have e5: "fst (deletePost env_bob scenario_state ''p1'')
              = Inl (Forbidden ''You do not have permission to delete this post.'')"
    by (simp add: deletePost_def scenario_defs store_defs)
  from error_leaves_stores_unchanged
         [of env_bob scenario_state "''p1''" payload_AB "''zz''"
             "\<lparr>content = ''hi'', postId = ''zz''\<rparr>" "''zz''" "''p1''"]
       error_leaves_stores_unchanged
         [of env_alice scenario_state "''zz''" payload_AB "''zz''"
             "\<lparr>content = ''hi'', postId = ''zz''\<rparr>" "''c1''" "''zz''"]
       e1 e2 e3 e4 e5
  show ?thesis by simp
qed

text \<open>
  C5: in \<open>updatePost\<close>, \<open>deletePost\<close> and \<open>deleteComment\<close>, a target id that is not in its
  store gives NotFound whoever the caller is, and an existing target whose owner (for a
  post) or sender (for a comment) is not equal to the caller gives Forbidden; in both
  cases the state is returned unchanged.
\<close>

theorem existence_before_authorization:
  "(get_store (postStorage s) i = None \<longrightarrow>
      is_NotFound (fst (updatePost env s i pp)) \<and> snd (updatePost env s i pp) = s
      \<and> is_NotFound (fst (deletePost env s i)) \<and> snd (deletePost env s i) = s)
   \<and> (\<forall>post. get_store (postStorage s) i = Some post \<and> owner post \<noteq> caller env \<longrightarrow>
        is_Forbidden (fst (updatePost env s i pp)) \<and> snd (updatePost env s i pp) = s
        \<and> is_Forbidden (fst (deletePost env s i)) \<and> snd (deletePost env s i) = s)
   \<and> (get_store (commentStorage s) j = None \<longrightarrow>
        is_NotFound (fst (deleteComment env s j)) \<and> snd (deleteComment env s j) = s)
   \<and> (\<forall>c. get_store (commentStorage s) j = Some c \<and> sender c \<noteq> caller env \<longrightarrow>
        is_Forbidden (fst (deleteComment env s j)) \<and> snd (deleteComment env s j) = s)"
  by (simp add: updatePost_def deletePost_def deleteComment_def Principal.expand)

theorem existence_before_authorization_witness:
  "get_store (postStorage scenario_state) ''zz'' = None
   \<and> is_NotFound (fst (updatePost env_bob scenario_state ''zz'' payload_AB))
   \<and> is_NotFound (fst (deletePost env_bob scenario_state ''zz''))
   \<and> get_store (commentStorage scenario_state) ''zz'' = None
   \<and> is_NotFound (fst (deleteComment env_bob scenario_state ''zz''))
   \<and> get_store (postStorage scenario_state) ''p1'' = Some post_p1
   \<and> owner post_p1 \<noteq> caller env_bob
   \<and> is_Forbidden (fst (updatePost env_bob scenario_state ''p1'' payload_AB))
   \<and> snd (updatePost env_bob scenario_state ''p1'' payload_AB) = scenario_state
   \<and> is_Forbidden (fst (deletePost env_bob scenario_state ''p1''))
   \<and> snd (deletePost env_bob scenario_state ''p1'') = scenario_state
   \<and> get_store (commentStorage scenario_state) ''c1'' = Some comment_c1
   \<and> sender comment_c1 \<noteq> caller env_alice
   \<and> is_Forbidden (fst (deleteComment env_alice scenario_state ''c1''))
   \<and> snd (deleteComment env_alice scenario_state ''c1'') = scenario_state"
proof -
  have h1: "get_store (postStorage scenario_state) ''zz'' = None"
    and h2: "get_store (commentStorage scenario_state) ''zz'' = None"
    and h3: "get_store (postStorage scenario_state) ''p1'' = Some post_p1"
    and h4: "get_store (commentStorage scenario_state) ''c1'' = Some comment_c1"
    by (simp_all add: scenario_defs store_defs)
  have h5: "owner post_p1 \<noteq> caller env_bob" and h6: "sender comment_c1 \<noteq> caller env_alice"
    by (simp_all add: scenario_defs)
  from existence_before_authorization [of scenario_state "''zz''" env_bob payload_AB "''zz''"]
       existence_before_authorization [of scenario_state "''p1''" env_bob payload_AB "''zz''"]
       existence_before_authorization [of scenario_state "''p1''" env_alice payload_AB "''c1''"]
       h1 h2 h3 h4 h5 h6
  show ?thesis by simp
qed

section \<open>commentOnPost\<close>





section \<open>likePost\<close>

lemma likePost_existing:
  assumes "keyed_by id_post (postStorage s)" and "get_store (postStorage s) i = Some p"
  shows "likePost s i =
           (Inr (p\<lparr>likes := number_increment (likes p)\<rparr>),
            s\<lparr>postStorage :=
                insert_store (postStorage s) i (p\<lparr>likes := number_increment (likes p)\<rparr>)\<rparr>)"
  using assms keyed_by_get [OF assms] by (simp add: likePost_def Let_def)

lemma min_step:
  fixes a M :: int
  shows "min (min (a + 1) M + int n) M = min (a + int (Suc n)) M"
  by (simp add: min_def)

lemma likePost_run:
  assumes "keyed_by id_post (postStorage s)" and "get_store (postStorage s) i = Some p"
    and "0 \<le> likes p" and "likes p \<le> 2 ^ 53"
  shows "get_store (postStorage (run s (map (\<lambda>env. (env, LikePost i)) envs))) i
           = Some (p\<lparr>likes := min (likes p + int (length envs)) (2 ^ 53)\<rparr>)"
  using assms
proof (induction envs arbitrary: s p)
  case Nil
  then show ?case by (simp add: min_def)
next
  case (Cons env envs)
  let ?p = "p\<lparr>likes := number_increment (likes p)\<rparr>"
  let ?s = "s\<lparr>postStorage := insert_store (postStorage s) i ?p\<rparr>"
  from Cons.prems(1,2) have key: "id_post p = i" by (rule keyed_by_get)
  have st: "step env s (LikePost i) = ?s"
    using Cons.prems(1,2) by (simp add: likePost_existing)
  have k: "keyed_by id_post (postStorage ?s)"
    using Cons.prems(1) key by (simp add: keyed_by_insert)
  have g: "get_store (postStorage ?s) i = Some ?p"
    by (simp add: get_insert_store)
  have inc: "number_increment (likes p) = min (likes p + 1) (2 ^ 53)"
    using Cons.prems(3,4) by (rule number_increment_min)
  have lo: "0 \<le> likes ?p" and hi: "likes ?p \<le> 2 ^ 53"
    using Cons.prems(3,4) number_increment_range [of "likes p"] by simp_all
  have "get_store (postStorage (run ?s (map (\<lambda>env. (env, LikePost i)) envs))) i
          = Some (?p\<lparr>likes := min (likes ?p + int (length envs)) (2 ^ 53)\<rparr>)"
    by (rule Cons.IH [OF k g lo hi])
  also have "?p\<lparr>likes := min (likes ?p + int (length envs)) (2 ^ 53)\<rparr>
      = p\<lparr>likes := min (likes p + int (length (env # envs))) (2 ^ 53)\<rparr>"
    using min_step [of "likes p" "2 ^ 53" "length envs"] by (simp add: inc)
  finally show ?case using st by simp
qed

text \<open>
  C9, as the claim states it, at a concrete input: the post \<open>p1\<close> has \<open>likes = 2 ^ 53\<close>.
  \<open>likePost\<close> succeeds and the record it returns and stores is the record it read: \<open>likes\<close>
  is still \<open>2 ^ 53\<close>, not \<open>2 ^ 53 + 1\<close>, because \<open>2 ^ 53 + 1\<close> is not a 64-bit float and
  the sum rounds back to \<open>2 ^ 53\<close>.
\<close>

theorem likePost_at_2_53_counterexample:
  "get_store (postStorage state_max) ''p1'' = Some post_max
   \<and> likes post_max = 2 ^ 53
   \<and> fst (likePost state_max ''p1'') = Inr post_max
   \<and> get_store (postStorage (snd (likePost state_max ''p1''))) ''p1'' = Some post_max
   \<and> map_option likes (get_store (postStorage (snd (likePost state_max ''p1''))) ''p1'')
        \<noteq> Some (likes post_max + 1)"
  by (simp add: likePost_def Let_def scenario_defs store_defs number_increment_def
      round_float64_def quantum_large quantum_small)

text \<open>
  C9, amended: \<open>likePost\<close> on an id that is not in the post store fails with NotFound and
  changes nothing. On an existing post it returns the record with \<open>likes\<close> incremented as a
  JavaScript number and stores that record under the id; the function does not read the
  caller, so there is no ownership check. The increment is by exactly 1 for a counter from
  0 up to, but not including, \<open>2 ^ 53\<close>, and leaves a counter of \<open>2 ^ 53\<close> as it is.
  Consequently, whoever the callers are, \<open>n\<close> calls in a row on a post with a counter in
  that range leave the stored \<open>likes\<close> at the smaller of the old value plus \<open>n\<close> and
  \<open>2 ^ 53\<close>: at \<open>n\<close> for a post that had \<open>likes = 0\<close> and every \<open>n\<close> up to \<open>2 ^ 53\<close>. The
  post store is keyed by the ids of its records.
\<close>

theorem likePost_increments_below_2_53:
  "(get_store (postStorage s) i = None \<longrightarrow>
      is_NotFound (fst (likePost s i)) \<and> snd (likePost s i) = s)
   \<and> (\<forall>p. keyed_by id_post (postStorage s) \<and> get_store (postStorage s) i = Some p \<longrightarrow>
         fst (likePost s i) = Inr (p\<lparr>likes := number_increment (likes p)\<rparr>)
         \<and> get_store (postStorage (snd (likePost s i))) i
              = Some (p\<lparr>likes := number_increment (likes p)\<rparr>)
         \<and> (\<forall>env. step env s (LikePost i) = snd (likePost s i))
         \<and> (0 \<le> likes p \<and> likes p < 2 ^ 53 \<longrightarrow> number_increment (likes p) = likes p + 1)
         \<and> (likes p = 2 ^ 53 \<longrightarrow> number_increment (likes p) = 2 ^ 53)
         \<and> (0 \<le> likes p \<and> likes p \<le> 2 ^ 53 \<longrightarrow>
              (\<forall>envs. get_store (postStorage (run s (map (\<lambda>env. (env, LikePost i)) envs))) i
                     = Some (p\<lparr>likes := min (likes p + int (length envs)) (2 ^ 53)\<rparr>)))
         \<and> (likes p = 0 \<longrightarrow>
              (\<forall>envs. int (length envs) \<le> 2 ^ 53 \<longrightarrow>
                 map_option likes
                  (get_store (postStorage (run s (map (\<lambda>env. (env, LikePost i)) envs))) i)
                     = Some (int (length envs)))))"
proof -
  have nf: "get_store (postStorage s) i = None \<longrightarrow>
      is_NotFound (fst (likePost s i)) \<and> snd (likePost s i) = s"
    by (simp add: likePost_def)
  have ex: "fst (likePost s i) = Inr (p\<lparr>likes := number_increment (likes p)\<rparr>)
         \<and> get_store (postStorage (snd (likePost s i))) i
              = Some (p\<lparr>likes := number_increment (likes p)\<rparr>)
         \<and> (\<forall>env. step env s (LikePost i) = snd (likePost s i))"
    if "keyed_by id_post (postStorage s)" and "get_store (postStorage s) i = Some p" for p
    using that by (simp add: likePost_existing get_insert_store)
  have one: "0 \<le> likes p \<and> likes p < 2 ^ 53 \<longrightarrow> number_increment (likes p) = likes p + 1"
    for p :: Post
    using number_increment_exact [of "likes p"] by blast
  have top: "likes p = 2 ^ 53 \<longrightarrow> number_increment (likes p) = 2 ^ 53" for p :: Post
    using number_increment_max by auto
  have many: "0 \<le> likes p \<and> likes p \<le> 2 ^ 53 \<longrightarrow>
      (\<forall>envs. get_store (postStorage (run s (map (\<lambda>env. (env, LikePost i)) envs))) i
            = Some (p\<lparr>likes := min (likes p + int (length envs)) (2 ^ 53)\<rparr>))"
    if "keyed_by id_post (postStorage s)" and "get_store (postStorage s) i = Some p" for p
    using likePost_run [OF that] by blast
  have zero: "likes p = 0 \<longrightarrow>
      (\<forall>envs. int (length envs) \<le> 2 ^ 53 \<longrightarrow>
         map_option likes
           (get_store (postStorage (run s (map (\<lambda>env. (env, LikePost i)) envs))) i)
             = Some (int (length envs)))"
    if "keyed_by id_post (postStorage s)" and "get_store (postStorage s) i = Some p" for p
  proof (intro impI allI)
    fix envs :: "ic list"
    assume z: "likes p = 0" and n: "int (length envs) \<le> 2 ^ 53"
    from z have "0 \<le> likes p" and "likes p \<le> 2 ^ 53" by simp_all
    from likePost_run [OF that this, of envs] z n
    show "map_option likes
           (get_store (postStorage (run s (map (\<lambda>env. (env, LikePost i)) envs))) i)
             = Some (int (length envs))"
      by (simp add: min_def)
  qed
  from nf ex one top many zero show ?thesis by blast
qed

theorem likePost_increments_below_2_53_witness:
  "get_store (postStorage scenario_state) ''zz'' = None
   \<and> is_NotFound (fst (likePost scenario_state ''zz''))
   \<and> keyed_by id_post (postStorage scenario_state)
   \<and> get_store (postStorage scenario_state) ''p1'' = Some post_p1 \<and> likes post_p1 = 0
   \<and> fst (likePost scenario_state ''p1'') = Inr (post_p1\<lparr>likes := 1\<rparr>)
   \<and> get_store (postStorage (snd (likePost scenario_state ''p1''))) ''p1''
        = Some (post_p1\<lparr>likes := 1\<rparr>)
   \<and> map_option likes
        (get_store (postStorage (run scenario_state
            [(env_alice, LikePost ''p1''), (env_bob, LikePost ''p1''),
             (env_bob, LikePost ''p1'')])) ''p1'') = Some 3"
proof -
  have h1: "get_store (postStorage scenario_state) ''zz'' = None"
    and h2: "get_store (postStorage scenario_state) ''p1'' = Some post_p1"
    by (simp_all add: scenario_defs store_defs)
  have h3: "keyed_by id_post (postStorage scenario_state)"
    by (simp add: keyed_by_def scenario_defs)
  have h4: "likes post_p1 = 0" by (simp add: scenario_defs)
  have m: "map (\<lambda>env. (env, LikePost ''p1'')) [env_alice, env_bob, env_bob]
             = [(env_alice, LikePost ''p1''), (env_bob, LikePost ''p1''),
                (env_bob, LikePost ''p1'')]"
    by simp
  from likePost_increments_below_2_53 [of scenario_state "''zz''"] h1
  have a: "is_NotFound (fst (likePost scenario_state ''zz''))" by simp
  from likePost_increments_below_2_53 [of scenario_state "''p1''"] h2 h3 h4
  have b: "fst (likePost scenario_state ''p1'') = Inr (post_p1\<lparr>likes := 1\<rparr>)"
    and c: "get_store (postStorage (snd (likePost scenario_state ''p1''))) ''p1''
        = Some (post_p1\<lparr>likes := 1\<rparr>)"
    and d: "\<forall>envs. int (length envs) \<le> 2 ^ 53 \<longrightarrow> map_option likes
        (get_store (postStorage (run scenario_state
            (map (\<lambda>env. (env, LikePost ''p1'')) envs))) ''p1'') = Some (int (length envs))"
    by simp_all
  from d [rule_format, of "[env_alice, env_bob, env_bob]"] m
  have e: "map_option likes
        (get_store (postStorage (run scenario_state
            [(env_alice, LikePost ''p1''), (env_bob, LikePost ''p1''),
             (env_bob, LikePost ''p1'')])) ''p1'') = Some 3"
    by simp
  from h1 h2 h3 h4 a b c e show ?thesis by blast
qed

section \<open>The likes counter never decreases\<close>









end
